theory Spec2Isabelle
  imports Complex_Main "HOL-Library.Word"
begin

section \<open>JavaScript numbers\<close>

text \<open>
  A JavaScript \<open>number\<close> is a double: finite, one of the two infinities, or NaN. A finite
  value is held as the real number it denotes; the sign of zero is not modelled.
  Comparisons with NaN are false, as in the language.
\<close>

datatype jsnum = Num real | PosInf | NegInf | NaN

text \<open>
  The result of an operation is the exact result rounded to the nearest double, ties to
  the even significand (IEEE 754 binary64): 53 bits of significand, the least exponent
  of the unit in the last place \<open>- 1074\<close>, and overflow to an infinity from \<open>2 ^ 1024\<close>
  on. \<open>rhe\<close> rounds to the nearest integer, ties to even; \<open>ulp_exp x\<close> is the exponent of
  the unit in the last place at \<open>x\<close>.
\<close>

definition rhe :: "real \<Rightarrow> int" where
  "rhe q =
     (let f = \<lfloor>q\<rfloor>; r = q - of_int f
      in if r < 1 / 2 then f else if 1 / 2 < r then f + 1 else if even f then f else f + 1)"

definition ulp_exp :: "real \<Rightarrow> int" where
  "ulp_exp x = max (\<lfloor>log 2 \<bar>x\<bar>\<rfloor> - 52) (- 1074)"

definition rnd :: "real \<Rightarrow> real" where
  "rnd x =
     (if x = 0 then 0
      else sgn x * (of_int (rhe (\<bar>x\<bar> / 2 powi ulp_exp x)) * 2 powi ulp_exp x))"

definition round_num :: "real \<Rightarrow> jsnum" where
  "round_num x =
     (let y = rnd x
      in if 2 ^ 1024 \<le> y then PosInf else if y \<le> - (2 ^ 1024) then NegInf else Num y)"

text \<open>
  Subtraction and multiplication round and overflow. Sums and quotients of finite
  numbers are kept exact (the mean of section Aggregation is stated up to rounding).
\<close>

fun js_sub :: "jsnum \<Rightarrow> jsnum \<Rightarrow> jsnum" where
  "js_sub NaN _ = NaN"
| "js_sub _ NaN = NaN"
| "js_sub (Num a) (Num b) = round_num (a - b)"
| "js_sub (Num a) PosInf = NegInf"
| "js_sub (Num a) NegInf = PosInf"
| "js_sub PosInf PosInf = NaN"
| "js_sub PosInf _ = PosInf"
| "js_sub NegInf NegInf = NaN"
| "js_sub NegInf _ = NegInf"

fun js_add :: "jsnum \<Rightarrow> jsnum \<Rightarrow> jsnum" where
  "js_add NaN _ = NaN"
| "js_add _ NaN = NaN"
| "js_add (Num a) (Num b) = Num (a + b)"
| "js_add (Num a) PosInf = PosInf"
| "js_add (Num a) NegInf = NegInf"
| "js_add PosInf NegInf = NaN"
| "js_add PosInf _ = PosInf"
| "js_add NegInf PosInf = NaN"
| "js_add NegInf _ = NegInf"

fun js_sign :: "jsnum \<Rightarrow> real" where
  "js_sign (Num a) = sgn a"
| "js_sign PosInf = 1"
| "js_sign NegInf = - 1"
| "js_sign NaN = 0"

fun js_mul :: "jsnum \<Rightarrow> jsnum \<Rightarrow> jsnum" where
  "js_mul NaN _ = NaN"
| "js_mul _ NaN = NaN"
| "js_mul (Num a) (Num b) = round_num (a * b)"
| "js_mul x y =
     (if js_sign x * js_sign y = 0 then NaN
      else if 0 < js_sign x * js_sign y then PosInf else NegInf)"

text \<open>Division; a zero divisor counts as positive zero.\<close>

fun js_div :: "jsnum \<Rightarrow> jsnum \<Rightarrow> jsnum" where
  "js_div NaN _ = NaN"
| "js_div _ NaN = NaN"
| "js_div (Num a) (Num b) =
     (if b \<noteq> 0 then Num (a / b)
      else if a = 0 then NaN else if 0 < a then PosInf else NegInf)"
| "js_div (Num a) _ = Num 0"
| "js_div PosInf (Num b) = (if 0 \<le> b then PosInf else NegInf)"
| "js_div NegInf (Num b) = (if 0 \<le> b then NegInf else PosInf)"
| "js_div _ _ = NaN"

fun js_abs :: "jsnum \<Rightarrow> jsnum" where
  "js_abs (Num a) = Num \<bar>a\<bar>"
| "js_abs PosInf = PosInf"
| "js_abs NegInf = PosInf"
| "js_abs NaN = NaN"

fun js_lt :: "jsnum \<Rightarrow> jsnum \<Rightarrow> bool" where
  "js_lt NaN _ = False"
| "js_lt _ NaN = False"
| "js_lt (Num a) (Num b) = (a < b)"
| "js_lt (Num a) PosInf = True"
| "js_lt (Num a) NegInf = False"
| "js_lt PosInf _ = False"
| "js_lt NegInf NegInf = False"
| "js_lt NegInf _ = True"

fun js_le :: "jsnum \<Rightarrow> jsnum \<Rightarrow> bool" where
  "js_le NaN _ = False"
| "js_le _ NaN = False"
| "js_le (Num a) (Num b) = (a \<le> b)"
| "js_le (Num a) PosInf = True"
| "js_le (Num a) NegInf = False"
| "js_le PosInf PosInf = True"
| "js_le PosInf _ = False"
| "js_le NegInf _ = True"

section \<open>The scale and the two snappers\<close>

text \<open>\<open>FIB\<close> is the same constant in the client (App.tsx) and in the service.\<close>

definition FIB :: "jsnum list" where
  "FIB = map Num [1, 2, 3, 5, 8, 13, 21, 34, 55, 89, 144, 233, 377, 610, 987, 1597]"

definition ALL_FIB_WITH_ZERO :: "jsnum list" where
  "ALL_FIB_WITH_ZERO = Num 0 # FIB"

text \<open>
  The body of the \<open>for\<close> loop of \<open>nearestFib\<close>: the loop state is the pair
  \<open>(best, minDiff)\<close>.
\<close>

definition nearest_step :: "jsnum \<Rightarrow> jsnum \<times> jsnum \<Rightarrow> jsnum \<Rightarrow> jsnum \<times> jsnum" where
  "nearest_step n st f =
     (let d = js_abs (js_sub n f) in if js_lt d (snd st) then (f, d) else st)"

definition nearestFib :: "jsnum \<Rightarrow> jsnum" where
  "nearestFib n =
     (if js_le n (Num 0) then Num 0
      else let best = hd FIB; minDiff = js_abs (js_sub n best)
           in fst (foldl (nearest_step n) (best, minDiff) FIB))"

text \<open>
  The service's \<open>snapFib\<close> is \<open>FIB.reduce\<close> without an initial value: the accumulator
  starts at the first member and the callback runs on the others.
\<close>

definition snap_step :: "jsnum \<Rightarrow> jsnum \<Rightarrow> jsnum \<Rightarrow> jsnum" where
  "snap_step n p c = (if js_lt (js_abs (js_sub c n)) (js_abs (js_sub p n)) then c else p)"

definition snapFib :: "jsnum \<Rightarrow> jsnum" where
  "snapFib n = foldl (snap_step n) (hd FIB) (tl FIB)"

section \<open>Strings\<close>

text \<open>
  A JavaScript string is a sequence of 16-bit code units. \<open>str\<close> embeds an ASCII
  literal of the source, \<open>fromCharCode\<close> is \<open>String.fromCharCode\<close> (its argument is
  taken modulo \<open>2 ^ 16\<close>), and \<open>show_nat\<close> is the decimal form a non-negative integer
  takes when it is concatenated to a string.
\<close>

type_synonym jsstring = "16 word list"

definition str :: "string \<Rightarrow> jsstring" where
  "str s = map (\<lambda>c. of_nat (of_char c)) s"

definition fromCharCode :: "nat \<Rightarrow> jsstring" where
  "fromCharCode n = [of_nat n]"

fun show_nat :: "nat \<Rightarrow> jsstring" where
  "show_nat n =
     (if n < 10 then [of_nat (48 + n)]
      else show_nat (n div 10) @ [of_nat (48 + n mod 10)])"

declare show_nat.simps [simp del]

section \<open>Data model (App.tsx)\<close>

datatype area = AreaS | AreaW | AreaO | AreaT

text \<open>\<open>score?: number\<close>: an absent score is \<open>None\<close>.\<close>

record Criterion =
  c_id :: jsstring
  c_text :: jsstring
  c_score :: "jsnum option"

record Scenario =
  s_id :: jsstring
  s_name :: jsstring
  s_description :: jsstring
  s_files :: "jsstring list"
  s_criteria :: "area \<Rightarrow> Criterion list"

text \<open>\<open>Partial<Scenario>\<close>: every field may be missing.\<close>

record PartialScenario =
  p_id :: "jsstring option"
  p_name :: "jsstring option"
  p_description :: "jsstring option"
  p_files :: "jsstring list option"
  p_criteria :: "(area \<Rightarrow> Criterion list) option"

type_synonym Weights = "area \<Rightarrow> jsnum"

definition AREAS :: "area list" where
  "AREAS = [AreaS, AreaW, AreaO, AreaT]"

definition no_partial :: PartialScenario where
  "no_partial = \<lparr>p_id = None, p_name = None, p_description = None, p_files = None,
                 p_criteria = None\<rparr>"

text \<open>The object spread \<open>{ ...s, ...partial }\<close>.\<close>

definition spread :: "Scenario \<Rightarrow> PartialScenario \<Rightarrow> Scenario" where
  "spread s p =
     \<lparr>s_id = (case p_id p of None \<Rightarrow> s_id s | Some v \<Rightarrow> v),
      s_name = (case p_name p of None \<Rightarrow> s_name s | Some v \<Rightarrow> v),
      s_description = (case p_description p of None \<Rightarrow> s_description s | Some v \<Rightarrow> v),
      s_files = (case p_files p of None \<Rightarrow> s_files s | Some v \<Rightarrow> v),
      s_criteria = (case p_criteria p of None \<Rightarrow> s_criteria s | Some v \<Rightarrow> v)\<rparr>"

section \<open>Aggregation\<close>

definition mean :: "jsnum list \<Rightarrow> jsnum" where
  "mean values =
     (if length values = 0 then Num 0
      else let s = foldl js_add (Num 0) values in js_div s (Num (real (length values))))"

text \<open>\<open>.filter((v) => typeof v === "number")\<close> on the list of optional scores.\<close>

fun numbers_only :: "jsnum option list \<Rightarrow> jsnum list" where
  "numbers_only [] = []"
| "numbers_only (None # vs) = numbers_only vs"
| "numbers_only (Some v # vs) = v # numbers_only vs"

record Stats =
  r_id :: jsstring
  r_name :: jsstring
  means :: "area \<Rightarrow> jsnum"
  total :: jsnum

text \<open>
  The callback of \<open>perScenarioStats\<close> in two parts: \<open>computeMeans\<close> is its loop over
  \<open>AREAS\<close>, which overwrites the four zeros of \<open>means\<close>, and \<open>computeTotal\<close> is
  the weighted sum that follows.
\<close>

definition computeMeans :: "Scenario \<Rightarrow> area \<Rightarrow> jsnum" where
  "computeMeans s =
     foldl (\<lambda>m a. m(a := mean (numbers_only (map c_score (s_criteria s a)))))
       (\<lambda>a. Num 0) AREAS"

definition computeTotal :: "(area \<Rightarrow> jsnum) \<Rightarrow> Weights \<Rightarrow> jsnum" where
  "computeTotal m w =
     js_add (js_add (js_add (js_mul (m AreaS) (w AreaS)) (js_mul (m AreaW) (w AreaW)))
       (js_mul (m AreaO) (w AreaO))) (js_mul (m AreaT) (w AreaT))"

definition perScenarioStats :: "Scenario list \<Rightarrow> Weights \<Rightarrow> Stats list" where
  "perScenarioStats scenarios weights =
     map (\<lambda>s. let m = computeMeans s
              in \<lparr>r_id = s_id s, r_name = s_name s, means = m, total = computeTotal m weights\<rparr>)
       scenarios"

text \<open>
  \<open>Array.prototype.sort\<close> with a comparator is a stable sort (ECMAScript 2019); a
  comparator result of NaN counts as zero. It is modelled as the stable insertion sort:
  \<open>x\<close>, which stood before the members of \<open>ys\<close>, moves behind \<open>y\<close> only when the
  comparator is positive.
\<close>

fun insert_by :: "('a \<Rightarrow> 'a \<Rightarrow> jsnum) \<Rightarrow> 'a \<Rightarrow> 'a list \<Rightarrow> 'a list" where
  "insert_by cmp x [] = [x]"
| "insert_by cmp x (y # ys) =
     (if js_lt (Num 0) (cmp x y) then y # insert_by cmp x ys else x # y # ys)"

definition js_sort :: "('a \<Rightarrow> 'a \<Rightarrow> jsnum) \<Rightarrow> 'a list \<Rightarrow> 'a list" where
  "js_sort cmp xs = foldr (insert_by cmp) xs []"

definition sortedForRanking :: "Scenario list \<Rightarrow> Weights \<Rightarrow> Stats list" where
  "sortedForRanking scenarios weights =
     js_sort (\<lambda>a b. js_sub (total b) (total a)) (perScenarioStats scenarios weights)"

section \<open>State and handlers (App.tsx)\<close>

text \<open>
  A handler closes over the values of the render that created it: \<open>scenarios\<close>,
  \<open>selectedScenarioId\<close> and \<open>selected\<close>. A functional update
  \<open>setScenarios((prev) => ...)\<close> is a function of the state \<open>prev\<close> it is applied to.
  The closure values are explicit arguments here, and \<open>prev\<close> is the last one.
\<close>

definition updateScenario :: "jsstring \<Rightarrow> PartialScenario \<Rightarrow> Scenario list \<Rightarrow> Scenario list" where
  "updateScenario selectedScenarioId partial prev =
     map (\<lambda>s. if s_id s = selectedScenarioId then spread s partial else s) prev"

definition setCriterionScore ::
  "Scenario \<Rightarrow> jsstring \<Rightarrow> area \<Rightarrow> jsstring \<Rightarrow> jsnum option \<Rightarrow> Scenario list \<Rightarrow> Scenario list" where
  "setCriterionScore selected selectedScenarioId a i score =
     updateScenario selectedScenarioId
       (no_partial\<lparr>p_criteria := Some ((s_criteria selected)
          (a := map (\<lambda>c. if c_id c = i then c\<lparr>c_score := score\<rparr> else c)
                  (s_criteria selected a)))\<rparr>)"

definition blank_scenario :: "jsstring \<Rightarrow> jsstring \<Rightarrow> Scenario" where
  "blank_scenario i n =
     \<lparr>s_id = i, s_name = n, s_description = [], s_files = [], s_criteria = (\<lambda>a. [])\<rparr>"

record app =
  st_scenarios :: "Scenario list"
  st_selectedScenarioId :: jsstring
  st_weights :: Weights

definition default_weights :: Weights where
  "default_weights =
     (\<lambda>a. Num 0)(AreaS := Num 1, AreaW := Num (- 1), AreaO := Num 1, AreaT := Num (- 1))"

text \<open>The initial state; \<open>u\<close> is the value \<open>uid()\<close> returned.\<close>

definition initial :: "jsstring \<Rightarrow> app" where
  "initial u =
     \<lparr>st_scenarios = [blank_scenario u (str ''Szenario A'')], st_selectedScenarioId = u,
      st_weights = default_weights\<rparr>"

definition addScenario :: "jsstring \<Rightarrow> app \<Rightarrow> app" where
  "addScenario u st =
     (let s = blank_scenario u
                (str ''Szenario '' @ fromCharCode (65 + length (st_scenarios st)))
      in st\<lparr>st_scenarios := st_scenarios st @ [s], st_selectedScenarioId := s_id s\<rparr>)"

definition removeScenario :: "jsstring \<Rightarrow> app \<Rightarrow> app" where
  "removeScenario i st =
     (let next = filter (\<lambda>s. s_id s \<noteq> i) (st_scenarios st)
      in if length next = 0 then st
         else if st_selectedScenarioId st = i
           then st\<lparr>st_scenarios := next, st_selectedScenarioId := s_id (hd next)\<rparr>
           else st\<lparr>st_scenarios := next\<rparr>)"

section \<open>Scoring through the endpoint (aiScoreAll)\<close>

text \<open>
  A JSON value found under a criterion id; only \<open>JNum\<close> has \<open>typeof\<close> \<open>"number"\<close>.
\<close>

datatype jsval = JNum jsnum | JStr jsstring | JBool bool | JNull | JOther

type_synonym score_map = "jsstring \<Rightarrow> jsval option"

text \<open>
  What \<open>res.json()\<close> gives: per area an object or nothing. \<open>Inl msg\<close> stands for a
  body that raises in the \<open>try\<close> block (not JSON, or \<open>null\<close>), \<open>msg\<close> being
  \<open>err?.message || String(err)\<close>.
\<close>

type_synonym score_data = "area \<Rightarrow> score_map option"

record fetch_response =
  status :: nat
  statusText :: jsstring
  body_text :: jsstring
  body_json :: "jsstring + score_data"

datatype fetch_outcome = FetchFailed jsstring | Responded fetch_response

definition ok :: "fetch_response \<Rightarrow> bool" where
  "ok res = (200 \<le> status res \<and> status res \<le> 299)"

definition rejected_message :: "fetch_response \<Rightarrow> jsstring" where
  "rejected_message res =
     str ''KI-Bewertung nicht erreichbar.\<newline>'' @
     str ''Bitte Backend-Endpoint POST /api/ai-score bereitstellen.\<newline>\<newline>'' @
     str ''HTTP '' @ show_nat (status res) @ str '' '' @ statusText res @
     (if body_text res \<noteq> [] then str ''\<newline>\<newline>'' @ body_text res else [])"

definition failed_message :: "jsstring \<Rightarrow> jsstring" where
  "failed_message msg =
     str ''Fehler beim KI-Scoring:\<newline>'' @ msg @
     str ''\<newline>\<newline>Stelle sicher, dass /api/ai-score erreichbar ist.''"

text \<open>The inner loop over \<open>selected.criteria[a]\<close>, one state update per accepted value.\<close>

definition score_criterion ::
  "Scenario \<Rightarrow> jsstring \<Rightarrow> area \<Rightarrow> score_map \<Rightarrow> Scenario list \<Rightarrow> Criterion \<Rightarrow> Scenario list" where
  "score_criterion selected selectedScenarioId a mapForArea prev c =
     (case mapForArea (c_id c) of
        Some (JNum raw) \<Rightarrow>
          if raw \<noteq> NaN
          then setCriterionScore selected selectedScenarioId a (c_id c) (Some (nearestFib raw)) prev
          else prev
      | _ \<Rightarrow> prev)"

definition score_area ::
  "Scenario \<Rightarrow> jsstring \<Rightarrow> score_data \<Rightarrow> Scenario list \<Rightarrow> area \<Rightarrow> Scenario list" where
  "score_area selected selectedScenarioId data prev a =
     (let mapForArea = (case data a of None \<Rightarrow> Map.empty | Some m \<Rightarrow> m)
      in foldl (score_criterion selected selectedScenarioId a mapForArea) prev
           (s_criteria selected a))"

text \<open>
  \<open>aiScoreAll\<close> returns the new scenario list and the alerts shown.
\<close>

definition aiScoreAll ::
  "Scenario \<Rightarrow> jsstring \<Rightarrow> fetch_outcome \<Rightarrow> Scenario list \<Rightarrow> Scenario list \<times> jsstring list" where
  "aiScoreAll selected selectedScenarioId outcome prev =
     (case outcome of
        FetchFailed msg \<Rightarrow> (prev, [failed_message msg])
      | Responded res \<Rightarrow>
          if \<not> ok res then (prev, [rejected_message res])
          else (case body_json res of
                  Inl msg \<Rightarrow> (prev, [failed_message msg])
                | Inr data \<Rightarrow>
                    (foldl (score_area selected selectedScenarioId data) prev AREAS, [])))"

section \<open>The events of the application\<close>

datatype action =
    AddScenario jsstring
  | RemoveScenario jsstring
  | Select jsstring
  | UpdateScenario PartialScenario
  | SetCriterionScore area jsstring "jsnum option"
  | SetWeights Weights
  | AiScoreAll fetch_outcome

text \<open>
  One event on the current render. \<open>selected\<close> is
  \<open>scenarios.find((s) => s.id === selectedScenarioId)\<close>; where it is undefined the
  component cannot render, and no handler runs.
\<close>

definition step :: "app \<Rightarrow> action \<Rightarrow> app" where
  "step st act =
     (case act of
        AddScenario u \<Rightarrow> addScenario u st
      | RemoveScenario i \<Rightarrow> removeScenario i st
      | Select i \<Rightarrow> st\<lparr>st_selectedScenarioId := i\<rparr>
      | SetWeights w \<Rightarrow> st\<lparr>st_weights := w\<rparr>
      | UpdateScenario p \<Rightarrow>
          st\<lparr>st_scenarios := updateScenario (st_selectedScenarioId st) p (st_scenarios st)\<rparr>
      | SetCriterionScore a i score \<Rightarrow>
          (case find (\<lambda>s. s_id s = st_selectedScenarioId st) (st_scenarios st) of
             None \<Rightarrow> st
           | Some selected \<Rightarrow>
               st\<lparr>st_scenarios :=
                 setCriterionScore selected (st_selectedScenarioId st) a i score (st_scenarios st)\<rparr>)
      | AiScoreAll outcome \<Rightarrow>
          (case find (\<lambda>s. s_id s = st_selectedScenarioId st) (st_scenarios st) of
             None \<Rightarrow> st
           | Some selected \<Rightarrow>
               st\<lparr>st_scenarios :=
                 fst (aiScoreAll selected (st_selectedScenarioId st) outcome (st_scenarios st))\<rparr>))"

definition run :: "app \<Rightarrow> action list \<Rightarrow> app" where
  "run st acts = foldl step st acts"

section \<open>The scoring service\<close>

text \<open>
  The completion request of \<open>scoreOne\<close> is an external call. \<open>Rejected\<close> stands for a
  promise that rejects: the request fails, or its content is not JSON, or is \<open>null\<close>.
  \<open>Payload p\<close> is a parsed answer, \<open>p\<close> its \<open>score\<close> property (\<open>None\<close> when the answer
  has none, as for the empty object taken when there is no content).
\<close>

datatype completion = Rejected | Payload "jsval option"

datatype service_error = SubCallRejected

definition scoreOne :: "(jsstring \<Rightarrow> completion) \<Rightarrow> jsstring \<Rightarrow> service_error + jsnum" where
  "scoreOne openai t =
     (case openai t of
        Rejected \<Rightarrow> Inl SubCallRejected
      | Payload p \<Rightarrow>
          (let raw = (case p of Some (JNum x) \<Rightarrow> x | _ \<Rightarrow> Num 0) in Inr (snapFib raw)))"

text \<open>\<open>Promise.all\<close>: the values in order, or a rejection as soon as one member rejects.\<close>

fun promise_all :: "('e + 'a) list \<Rightarrow> 'e + 'a list" where
  "promise_all [] = Inr []"
| "promise_all (Inl e # ps) = Inl e"
| "promise_all (Inr v # ps) = (case promise_all ps of Inl e \<Rightarrow> Inl e | Inr vs \<Rightarrow> Inr (v # vs))"

record CriterionIn =
  i_id :: jsstring
  i_text :: jsstring

text \<open>
  The request as the handler sees it: the method, and the outcome of \<open>req.json()\<close>
  followed by \<open>Body.safeParse\<close>.
\<close>

datatype body_result =
    InvalidJSON
  | SchemaError jsstring
  | Parsed "area \<Rightarrow> CriterionIn list"

record request =
  req_method :: jsstring
  req_body :: body_result

datatype response_body = Text jsstring | Scores "area \<Rightarrow> (jsstring \<Rightarrow> jsnum option)"

datatype http_response = Response nat response_body

definition score_list ::
  "(jsstring \<Rightarrow> completion) \<Rightarrow> CriterionIn list \<Rightarrow> service_error + (jsstring \<times> jsnum) list" where
  "score_list openai list =
     promise_all
       (map (\<lambda>c. case scoreOne openai (i_text c) of
                   Inl e \<Rightarrow> Inl e
                 | Inr v \<Rightarrow> Inr (i_id c, v)) list)"

text \<open>
  The assignment \<open>out[area][r.id] = r.v\<close> on a plain object. The key \<open>__proto__\<close> names
  the accessor of the prototype, which ignores a number: nothing is stored under it.
\<close>

definition set_entry ::
  "(jsstring \<Rightarrow> jsnum option) \<Rightarrow> jsstring \<times> jsnum \<Rightarrow> (jsstring \<Rightarrow> jsnum option)" where
  "set_entry m r = (if fst r = str ''__proto__'' then m else m(fst r \<mapsto> snd r))"

fun handler_areas ::
  "(jsstring \<Rightarrow> completion) \<Rightarrow> (area \<Rightarrow> CriterionIn list) \<Rightarrow> area list
     \<Rightarrow> (area \<Rightarrow> (jsstring \<Rightarrow> jsnum option)) \<Rightarrow> service_error + (area \<Rightarrow> (jsstring \<Rightarrow> jsnum option))" where
  "handler_areas openai criteria [] out = Inr out"
| "handler_areas openai criteria (a # as) out =
     (case score_list openai (criteria a) of
        Inl e \<Rightarrow> Inl e
      | Inr results \<Rightarrow>
          handler_areas openai criteria as
            (out(a := foldl set_entry (out a) results)))"

definition handler :: "(jsstring \<Rightarrow> completion) \<Rightarrow> request \<Rightarrow> service_error + http_response" where
  "handler openai req =
     (if req_method req \<noteq> str ''POST''
      then Inr (Response 405 (Text (str ''Method Not Allowed'')))
      else case req_body req of
             InvalidJSON \<Rightarrow> Inr (Response 400 (Text (str ''Invalid JSON'')))
           | SchemaError e \<Rightarrow> Inr (Response 400 (Text e))
           | Parsed criteria \<Rightarrow>
               (case handler_areas openai criteria [AreaS, AreaW, AreaO, AreaT]
                       (\<lambda>a. Map.empty) of
                  Inl e \<Rightarrow> Inl e
                | Inr out \<Rightarrow> Inr (Response 200 (Scores out))))"

section \<open>Notions used in the statements\<close>


text \<open>
  The numbers \<open>m * 2 ^ e\<close> with a significand of at most 53 bits and \<open>e\<close> from \<open>- 1074\<close>
  on: the doubles, with no bound on the exponent.
\<close>

definition grid :: "real \<Rightarrow> bool" where
  "grid x \<longleftrightarrow> (\<exists>m e. x = of_int m * 2 powi e \<and> \<bar>m\<bar> \<le> 2 ^ 53 \<and> - 1074 \<le> e)"

text \<open>The least positive double, and its multiples.\<close>

definition min_double :: real where
  "min_double = 2 powi (- 1074)"

definition lattice :: "real \<Rightarrow> bool" where
  "lattice x \<longleftrightarrow> (\<exists>k. x = of_int k * min_double)"





section \<open>Example data\<close>

definition crit :: "string \<Rightarrow> jsnum option \<Rightarrow> Criterion" where
  "crit i sc = \<lparr>c_id = str i, c_text = str i, c_score = sc\<rparr>"

text \<open>A scenario whose criteria are all strengths.\<close>

definition scen :: "string \<Rightarrow> Criterion list \<Rightarrow> Scenario" where
  "scen i cs =
     \<lparr>s_id = str i, s_name = str i, s_description = [], s_files = [],
      s_criteria = (\<lambda>a. [])(AreaS := cs)\<rparr>"

definition three_scores :: Scenario where
  "three_scores = scen ''a'' [crit ''c1'' (Some (Num 5)), crit ''c2'' None, crit ''c3'' (Some (Num 3))]"

definition three_scenarios :: "Scenario list" where
  "three_scenarios =
     [scen ''a'' [crit ''c1'' (Some (Num 5))],
      scen ''b'' [crit ''c1'' (Some (Num 8))],
      scen ''c'' [crit ''c1'' (Some (Num 3)), crit ''c2'' (Some (Num 13))]]"

definition two_unscored :: Scenario where
  "two_unscored = scen ''a'' [crit ''c1'' None, crit ''c2'' None]"

text \<open>A response body with scores for strengths only.\<close>

definition scores_for :: "(string \<times> jsval) list \<Rightarrow> score_data" where
  "scores_for kvs = (\<lambda>a. None)(AreaS := Some (map_of (map (\<lambda>(k, v). (str k, v)) kvs)))"

definition respond :: "nat \<Rightarrow> string \<Rightarrow> string \<Rightarrow> jsstring + score_data \<Rightarrow> fetch_response" where
  "respond code st txt js =
     \<lparr>status = code, statusText = str st, body_text = str txt, body_json = js\<rparr>"

definition crit_in :: "string \<Rightarrow> string \<Rightarrow> CriterionIn" where
  "crit_in i t = \<lparr>i_id = str i, i_text = str t\<rparr>"

definition post :: "CriterionIn list \<Rightarrow> request" where
  "post cs = \<lparr>req_method = str ''POST'', req_body = Parsed ((\<lambda>a. [])(AreaS := cs))\<rparr>"

text \<open>A completion service that rejects the text \<open>b\<close> and answers 5 to any other.\<close>

definition rejects_b :: "jsstring \<Rightarrow> completion" where
  "rejects_b t = (if t = str ''b'' then Rejected else Payload (Some (JNum (Num 5))))"




section \<open>Properties of rounding\<close>

lemma rhe_floor: "rhe q = \<lfloor>q\<rfloor> \<or> rhe q = \<lfloor>q\<rfloor> + 1"
  by (simp add: rhe_def Let_def)

lemma rhe_near: "\<bar>of_int (rhe q) - q\<bar> \<le> \<bar>of_int k - q\<bar>"
proof -
  define f where "f = \<lfloor>q\<rfloor>"
  have f: "of_int f \<le> q" "q < of_int f + 1" unfolding f_def by linarith+
  consider "k \<le> f" | "f + 1 \<le> k" by linarith
  then show ?thesis
  proof cases
    case 1
    then have "(of_int k :: real) \<le> of_int f" by simp
    then show ?thesis using f by (auto simp: rhe_def Let_def f_def [symmetric])
  next
    case 2
    then have "(of_int f :: real) + 1 \<le> of_int k" by (metis of_int_1 of_int_add of_int_le_iff)
    then show ?thesis using f by (auto simp: rhe_def Let_def f_def [symmetric])
  qed
qed

lemma rhe_of_int: "rhe (of_int k) = k"
  by (simp add: rhe_def)

lemma rhe_nonneg: "0 \<le> q \<Longrightarrow> 0 \<le> rhe q"
  using rhe_floor [of q] by (auto simp: zero_le_floor)

lemma rhe_le: "q \<le> of_int N \<Longrightarrow> rhe q \<le> N"
proof -
  assume a: "q \<le> of_int N"
  show ?thesis
  proof (cases "q = of_int N")
    case True
    then show ?thesis by (simp add: rhe_of_int)
  next
    case False
    then have "q < of_int N" using a by simp
    then have "\<lfloor>q\<rfloor> < N" by (simp add: floor_less_iff)
    then show ?thesis using rhe_floor [of q] by auto
  qed
qed

lemma ulp_exp_ge: "- 1074 \<le> ulp_exp x"
  by (simp add: ulp_exp_def)

lemma two_powi_pos: "0 < (2::real) powi e"
  by simp

lemma ulp_exp_upper: "x \<noteq> 0 \<Longrightarrow> \<bar>x\<bar> < 2 ^ 53 * 2 powi ulp_exp x"
proof -
  assume x: "x \<noteq> 0"
  define k where "k = \<lfloor>log 2 \<bar>x\<bar>\<rfloor>"
  have "\<bar>x\<bar> < 2 powr (of_int k + 1)"
    using floor_log_eq_powr_iff [of "\<bar>x\<bar>" 2 k] x by (simp add: k_def)
  also have "2 powr (of_int k + 1) = (2::real) powi (k + 1)"
    using powr_real_of_int' [of 2 "k + 1"] by simp
  also have "\<dots> \<le> 2 powi (ulp_exp x + 53)"
    by (rule power_int_increasing) (simp_all add: ulp_exp_def k_def)
  also have "\<dots> = 2 ^ 53 * 2 powi ulp_exp x"
    by (simp add: power_int_add)
  finally show ?thesis .
qed

lemma ulp_exp_lower: "x \<noteq> 0 \<Longrightarrow> ulp_exp x \<noteq> - 1074 \<Longrightarrow> 2 ^ 52 * 2 powi ulp_exp x \<le> \<bar>x\<bar>"
proof -
  assume x: "x \<noteq> 0" and n: "ulp_exp x \<noteq> - 1074"
  define k where "k = \<lfloor>log 2 \<bar>x\<bar>\<rfloor>"
  have e: "ulp_exp x = k - 52" using n by (auto simp: ulp_exp_def k_def max_def split: if_splits)
  have "2 ^ 52 * 2 powi ulp_exp x = (2::real) powi (ulp_exp x + 52)"
    by (simp add: power_int_add)
  also have "\<dots> = 2 powi k" by (simp add: e)
  also have "\<dots> = 2 powr (of_int k)"
    using powr_real_of_int' [of 2 k] by simp
  also have "\<dots> \<le> \<bar>x\<bar>"
    using floor_log_eq_powr_iff [of "\<bar>x\<bar>" 2 k] x by (simp add: k_def)
  finally show ?thesis .
qed


lemma rnd_0: "rnd 0 = 0"
  by (simp add: rnd_def)

lemma rnd_minus: "rnd (- x) = - rnd x"
  by (simp add: rnd_def ulp_exp_def)

lemma rnd_pos_eq:
  "0 < x \<Longrightarrow> rnd x = of_int (rhe (x / 2 powi ulp_exp x)) * 2 powi ulp_exp x"
  by (simp add: rnd_def)

lemma grid_minus: "grid x \<Longrightarrow> grid (- x)"
proof -
  assume "grid x"
  then obtain m e where "x = of_int m * 2 powi e" "\<bar>m\<bar> \<le> 2 ^ 53" "- 1074 \<le> e"
    unfolding grid_def by blast
  then have "- x = of_int (- m) * 2 powi e \<and> \<bar>- m\<bar> \<le> 2 ^ 53 \<and> - 1074 \<le> e" by simp
  then show ?thesis unfolding grid_def by blast
qed

lemma rnd_grid_pos: "0 < x \<Longrightarrow> grid (rnd x)"
proof -
  assume x: "0 < x"
  define u :: real where "u = 2 powi ulp_exp x"
  have u: "0 < u" by (simp add: u_def)
  have "x < 2 ^ 53 * u" using ulp_exp_upper [of x] x by (simp add: u_def)
  then have "x / u \<le> of_int (2 ^ 53)" using u by (simp add: field_simps)
  then have "rhe (x / u) \<le> 2 ^ 53" by (rule rhe_le)
  moreover have "0 \<le> rhe (x / u)" using x u by (intro rhe_nonneg) simp
  ultimately have "\<bar>rhe (x / u)\<bar> \<le> 2 ^ 53" by simp
  then show ?thesis
    unfolding grid_def using rnd_pos_eq [OF x] ulp_exp_ge [of x] by (auto simp: u_def)
qed

lemma rnd_grid: "grid (rnd x)"
proof -
  consider "x = 0" | "0 < x" | "x < 0" by linarith
  then show ?thesis
  proof cases
    case 1
    have "(0::real) = of_int 0 * 2 powi 0 \<and> \<bar>0::int\<bar> \<le> 2 ^ 53 \<and> - 1074 \<le> (0::int)" by simp
    then have "grid 0" unfolding grid_def by blast
    then show ?thesis using 1 by (simp add: rnd_0)
  next
    case 2
    then show ?thesis by (rule rnd_grid_pos)
  next
    case 3
    then have "grid (rnd (- x))" by (intro rnd_grid_pos) simp
    then show ?thesis using grid_minus [of "rnd (- x)"] by (simp add: rnd_minus)
  qed
qed

lemma rnd_nearest_pos:
  assumes x: "0 < x" and d: "grid d"
  shows "\<bar>rnd x - x\<bar> \<le> \<bar>d - x\<bar>"
proof -
  define e where "e = ulp_exp x"
  define u :: real where "u = 2 powi e"
  define q where "q = x / u"
  have u: "0 < u" by (simp add: u_def)
  have qx: "q * u = x" "u * q = x" using u by (simp_all add: q_def)
  have r: "rnd x = of_int (rhe q) * u"
    using rnd_pos_eq [OF x] by (simp add: q_def u_def e_def)
  have near: "\<bar>rnd x - x\<bar> = \<bar>of_int (rhe q) - q\<bar> * u"
  proof -
    have "(of_int (rhe q) - q) * u = rnd x - x" by (simp add: r qx algebra_simps)
    then have "\<bar>rnd x - x\<bar> = \<bar>(of_int (rhe q) - q) * u\<bar>" by simp
    then show ?thesis using u by (simp add: abs_mult)
  qed
  from d obtain m e' where m: "d = of_int m * 2 powi e'" "\<bar>m\<bar> \<le> 2 ^ 53" "- 1074 \<le> e'"
    unfolding grid_def by blast
  show ?thesis
  proof (cases "e \<le> e'")
    case True
    have "(2::real) powi e' = 2 powi (e' - e) * 2 powi e"
      by (simp flip: power_int_add)
    also have "(2::real) powi (e' - e) = 2 ^ nat (e' - e)"
      using True by (simp add: power_int_def)
    finally have "d = of_int (m * 2 ^ nat (e' - e)) * u"
      by (simp add: m(1) u_def)
    then have "(of_int (m * 2 ^ nat (e' - e)) - q) * u = d - x"
      by (simp add: qx algebra_simps)
    then have "\<bar>d - x\<bar> = \<bar>(of_int (m * 2 ^ nat (e' - e)) - q) * u\<bar>" by simp
    then have "\<bar>d - x\<bar> = \<bar>of_int (m * 2 ^ nat (e' - e)) - q\<bar> * u"
      using u by (simp only: abs_mult abs_of_pos)
    moreover have "\<bar>of_int (rhe q) - q\<bar> \<le> \<bar>of_int (m * 2 ^ nat (e' - e)) - q\<bar>"
      by (rule rhe_near)
    ultimately show ?thesis using near u by (simp add: mult_right_mono)
  next
    case False
    then have lt: "e' \<le> e - 1" by simp
    have "e \<noteq> - 1074" using False m(3) by simp
    then have low: "2 ^ 52 * u \<le> x"
      using ulp_exp_lower [of x] x by (simp add: u_def e_def)
    have "\<bar>d\<bar> = \<bar>of_int m\<bar> * 2 powi e'" by (simp add: m(1) abs_mult)
    also have "\<dots> \<le> 2 ^ 53 * 2 powi e'"
    proof (rule mult_right_mono)
      have "(of_int \<bar>m\<bar> :: real) \<le> of_int (2 ^ 53)" using m(2) by (simp only: of_int_le_iff)
      then show "\<bar>of_int m :: real\<bar> \<le> 2 ^ 53" by simp
    qed simp
    also have "\<dots> \<le> 2 ^ 53 * 2 powi (e - 1)"
      using lt by (intro mult_left_mono power_int_increasing) simp_all
    also have "\<dots> = 2 ^ 52 * u"
      by (simp add: u_def power_int_diff)
    finally have dle: "\<bar>d\<bar> \<le> 2 ^ 52 * u" .
    then have "\<bar>d - x\<bar> \<ge> x - 2 ^ 52 * u" by linarith
    moreover have "x - 2 ^ 52 * u = \<bar>of_int (2 ^ 52) - q\<bar> * u"
    proof -
      have "2 ^ 52 \<le> q" using low u by (simp add: q_def field_simps)
      then have "\<bar>of_int (2 ^ 52) - q\<bar> = q - 2 ^ 52" by simp
      then show ?thesis by (simp add: qx algebra_simps)
    qed
    moreover have "\<bar>of_int (rhe q) - q\<bar> * u \<le> \<bar>of_int (2 ^ 52) - q\<bar> * u"
      using u by (intro mult_right_mono rhe_near) simp
    ultimately show ?thesis using near by linarith
  qed
qed

lemma rnd_nearest: "grid d \<Longrightarrow> \<bar>rnd x - x\<bar> \<le> \<bar>d - x\<bar>"
proof -
  assume d: "grid d"
  consider "x = 0" | "0 < x" | "x < 0" by linarith
  then show ?thesis
  proof cases
    case 1
    then show ?thesis by (simp add: rnd_0)
  next
    case 2
    then show ?thesis using d by (rule rnd_nearest_pos)
  next
    case 3
    then have "\<bar>rnd (- x) - (- x)\<bar> \<le> \<bar>(- d) - (- x)\<bar>"
      using d by (intro rnd_nearest_pos grid_minus) simp_all
    then show ?thesis by (simp add: rnd_minus abs_minus_commute)
  qed
qed

lemma rnd_exact: "grid d \<Longrightarrow> rnd d = d"
  using rnd_nearest [of d d] by simp

lemma rnd_mono: "x \<le> y \<Longrightarrow> rnd x \<le> rnd y"
proof (rule ccontr)
  assume xy: "x \<le> y" and "\<not> rnd x \<le> rnd y"
  then have gt: "rnd y < rnd x" by simp
  have 1: "\<bar>rnd x - x\<bar> \<le> \<bar>rnd y - x\<bar>" using rnd_grid by (rule rnd_nearest)
  have 2: "\<bar>rnd y - y\<bar> \<le> \<bar>rnd x - y\<bar>" using rnd_grid by (rule rnd_nearest)
  from gt 1 have "rnd x + rnd y \<le> 2 * x" by linarith
  moreover from gt 2 have "2 * y \<le> rnd x + rnd y" by linarith
  ultimately have "x = y" using xy by linarith
  then show False using gt by simp
qed

lemma rnd_nonneg: "0 \<le> x \<Longrightarrow> 0 \<le> rnd x"
  using rnd_mono [of 0 x] by (simp add: rnd_0)




lemma grid_dyadic: "2 * x \<in> \<int> \<Longrightarrow> \<bar>x\<bar> \<le> 2 ^ 52 \<Longrightarrow> grid x"
proof -
  assume "2 * x \<in> \<int>" and b: "\<bar>x\<bar> \<le> 2 ^ 52"
  then obtain k where k: "2 * x = of_int k" by (auto elim: Ints_cases)
  have "\<bar>of_int k :: real\<bar> \<le> of_int (2 ^ 53)" using b k [symmetric] by simp
  then have "\<bar>k\<bar> \<le> 2 ^ 53" by (metis of_int_abs of_int_le_iff)
  moreover have "x = of_int k * 2 powi (- 1)" using k by simp
  ultimately have "x = of_int k * 2 powi (- 1) \<and> \<bar>k\<bar> \<le> 2 ^ 53 \<and> - 1074 \<le> (- 1 :: int)"
    by simp
  then show ?thesis unfolding grid_def by blast
qed








lemma lattice_0: "lattice 0"
proof -
  have "(0::real) = of_int 0 * min_double" by simp
  then show ?thesis unfolding lattice_def by blast
qed


lemma round_num_0: "round_num 0 = Num 0"
  by (simp add: round_num_def rnd_0)


lemma round_num_exact: "grid x \<Longrightarrow> \<bar>x\<bar> < 2 ^ 1024 \<Longrightarrow> round_num x = Num x"
  by (auto simp: round_num_def Let_def rnd_exact)

lemma round_num_dyadic: "2 * x \<in> \<int> \<Longrightarrow> \<bar>x\<bar> \<le> 2 ^ 52 \<Longrightarrow> round_num x = Num x"
proof -
  assume a: "2 * x \<in> \<int>" "\<bar>x\<bar> \<le> 2 ^ 52"
  have "(2::real) ^ 52 < 2 ^ 1024" by simp
  then have "\<bar>x\<bar> < 2 ^ 1024" using a(2) by linarith
  then show ?thesis using grid_dyadic [OF a] by (rule round_num_exact [rotated])
qed



text \<open>The order of two roundings of non-negative numbers, overflow included.\<close>

lemma round_num_not_less:
  "0 \<le> x \<Longrightarrow> x \<le> y \<Longrightarrow> \<not> js_lt (js_abs (round_num y)) (js_abs (round_num x))"
proof -
  assume x: "0 \<le> x" and xy: "x \<le> y"
  have "0 \<le> rnd x" "rnd x \<le> rnd y" using x xy by (simp_all add: rnd_nonneg rnd_mono)
  then show ?thesis by (auto simp: round_num_def Let_def)
qed





section \<open>Properties of the snappers\<close>

lemma hd_FIB: "hd FIB = Num 1"
  by (simp add: FIB_def)

lemma nearest_loop_member:
  "fst (foldl (nearest_step n) (b, m) xs) \<in> insert b (set xs)"
proof (induction xs arbitrary: b m)
  case Nil
  show ?case by simp
next
  case (Cons x xs)
  show ?case
    using Cons.IH [of x "js_abs (js_sub n x)"] Cons.IH [of b m]
    by (auto simp: nearest_step_def Let_def)
qed

lemma snap_loop_member: "foldl (snap_step n) p xs \<in> insert p (set xs)"
proof (induction xs arbitrary: p)
  case Nil
  show ?case by simp
next
  case (Cons x xs)
  show ?case
    using Cons.IH [of x] Cons.IH [of p] by (auto simp: snap_step_def)
qed

lemma snapFib_member: "snapFib n \<in> set FIB"
proof -
  have "snapFib n \<in> insert (hd FIB) (set (tl FIB))"
    unfolding snapFib_def by (rule snap_loop_member)
  then show ?thesis by (auto simp: FIB_def)
qed

lemma nearestFib_member: "\<not> js_le n (Num 0) \<Longrightarrow> nearestFib n \<in> set FIB"
proof -
  assume "\<not> js_le n (Num 0)"
  then have "nearestFib n \<in> insert (hd FIB) (set FIB)"
    using nearest_loop_member [of n "hd FIB" "js_abs (js_sub n (hd FIB))" FIB]
    by (simp add: nearestFib_def Let_def)
  then show ?thesis by (auto simp: FIB_def)
qed




lemma snap_loop_stay:
  "\<forall>c \<in> set xs. \<not> js_lt (js_abs (js_sub c n)) (js_abs (js_sub p n)) \<Longrightarrow>
     foldl (snap_step n) p xs = p"
  by (induction xs) (simp_all add: snap_step_def)






lemma snapFib_nonpos: "n \<le> 0 \<Longrightarrow> snapFib (Num n) = Num 1"
proof -
  assume n: "n \<le> 0"
  have "\<forall>c \<in> set (tl FIB). \<not> js_lt (js_abs (js_sub c (Num n))) (js_abs (js_sub (Num 1) (Num n)))"
  proof
    fix c assume "c \<in> set (tl FIB)"
    then obtain x where x: "c = Num x" "1 \<le> x" by (auto simp: FIB_def)
    have "\<not> js_lt (js_abs (round_num (x - n))) (js_abs (round_num (1 - n)))"
      using n x(2) by (intro round_num_not_less) simp_all
    then show "\<not> js_lt (js_abs (js_sub c (Num n))) (js_abs (js_sub (Num 1) (Num n)))"
      by (simp add: x(1))
  qed
  then show ?thesis unfolding snapFib_def hd_FIB by (rule snap_loop_stay)
qed

lemma nearestFib_nonpos: "n \<le> 0 \<Longrightarrow> nearestFib (Num n) = Num 0"
  by (simp add: nearestFib_def)


lemma js_mul_dyadic:
  "2 * (a * b) \<in> \<int> \<Longrightarrow> \<bar>a * b\<bar> \<le> 2 ^ 52 \<Longrightarrow> js_mul (Num a) (Num b) = Num (a * b)"
  by (simp add: round_num_dyadic)

lemma nearest_step_Num:
  "2 * (n - f) \<in> \<int> \<Longrightarrow> \<bar>n - f\<bar> \<le> 2 ^ 52 \<Longrightarrow>
   nearest_step (Num n) (Num b, Num m) (Num f) =
     (if \<bar>n - f\<bar> < m then (Num f, Num \<bar>n - f\<bar>) else (Num b, Num m))"
  by (simp add: nearest_step_def Let_def round_num_dyadic)

lemma snap_step_Num:
  "2 * (c - n) \<in> \<int> \<Longrightarrow> \<bar>c - n\<bar> \<le> 2 ^ 52 \<Longrightarrow>
   2 * (p - n) \<in> \<int> \<Longrightarrow> \<bar>p - n\<bar> \<le> 2 ^ 52 \<Longrightarrow>
   snap_step (Num n) (Num p) (Num c) = (if \<bar>c - n\<bar> < \<bar>p - n\<bar> then Num c else Num p)"
  by (simp add: snap_step_def round_num_dyadic)










subsection \<open>Inputs at or below zero\<close>

text \<open>
  C1 (as the code has it): for every real \<open>n \<le> 0\<close> the client's \<open>nearestFib\<close>
  returns 0, which is not a member of the scale; the service's \<open>snapFib\<close> returns the
  lowest member of the scale, 1.
\<close>

theorem snap_nonpositive:
  "n \<le> 0 \<Longrightarrow> nearestFib (Num n) = Num 0 \<and> snapFib (Num n) = Num 1 \<and> hd FIB = Num 1"
  by (simp add: nearestFib_nonpos snapFib_nonpos hd_FIB)

theorem snap_nonpositive_witness:
  "(- 3 :: real) \<le> 0 \<and> nearestFib (Num (- 3)) = Num 0 \<and> snapFib (Num (- 3)) = Num 1"
  using snap_nonpositive [of "- 3"] by simp

text \<open>
  C1 as stated (\<open>nearestFib\<close> returns the lowest member of the scale for \<open>n \<le> 0\<close>)
  fails at \<open>n = 0\<close>.
\<close>

theorem nearestFib_zero_counterexample:
  "hd FIB = Num 1 \<and> nearestFib (Num 0) = Num 0 \<and> nearestFib (Num 0) \<noteq> hd FIB"
  by (simp add: nearestFib_def FIB_def)

subsection \<open>Positive inputs\<close>




subsection \<open>Every input\<close>

text \<open>
  C10: \<open>nearestFib\<close> returns a value on every input, infinite and NaN included: 0 on
  the inputs \<open>n <= 0\<close>, a member of the scale on every other input, and the lowest
  member 1 on NaN and on positive infinity.
\<close>

theorem nearestFib_range:
  "(js_le n (Num 0) \<longrightarrow> nearestFib n = Num 0)
     \<and> (\<not> js_le n (Num 0) \<longrightarrow> nearestFib n \<in> set FIB)
     \<and> nearestFib n \<in> set ALL_FIB_WITH_ZERO
     \<and> nearestFib NaN = Num 1 \<and> nearestFib PosInf = Num 1"
proof -
  have a: "js_le n (Num 0) \<longrightarrow> nearestFib n = Num 0"
    by (simp add: nearestFib_def)
  have b: "\<not> js_le n (Num 0) \<longrightarrow> nearestFib n \<in> set FIB"
    using nearestFib_member by blast
  have c: "nearestFib n \<in> set ALL_FIB_WITH_ZERO"
    using a b by (cases "js_le n (Num 0)") (simp_all add: ALL_FIB_WITH_ZERO_def)
  have d: "nearestFib NaN = Num 1"
    by (simp add: nearestFib_def FIB_def nearest_step_def Let_def)
  have e: "nearestFib PosInf = Num 1"
    by (simp add: nearestFib_def FIB_def nearest_step_def Let_def)
  show ?thesis using a b c d e by blast
qed

theorem nearestFib_range_witness:
  "js_le NegInf (Num 0) \<and> nearestFib NegInf = Num 0
     \<and> \<not> js_le (Num 700) (Num 0) \<and> nearestFib (Num 700) \<in> set FIB"
  using nearestFib_range [of NegInf] nearestFib_range [of "Num 700"] by simp

section \<open>Properties of the aggregation\<close>




lemma computeMeans_eq:
  "computeMeans s a = mean (numbers_only (map c_score (s_criteria s a)))"
  by (cases a) (simp_all add: computeMeans_def AREAS_def)




section \<open>Properties of the ranking\<close>




















text \<open>The totals 5, 8, 8: the two rows of total 8 keep their order, above the row of total 5.\<close>

lemma ranking_example:
  "map (\<lambda>x. (r_id x, total x)) (sortedForRanking three_scenarios default_weights)
     = [(str ''b'', Num 8), (str ''c'', Num 8), (str ''a'', Num 5)]"
  by (simp add: sortedForRanking_def perScenarioStats_def js_sort_def three_scenarios_def
      scen_def crit_def computeMeans_eq computeTotal_def mean_def default_weights_def Let_def
      round_num_dyadic round_num_0)


section \<open>Properties of the scenario set\<close>

lemma length_updateScenario: "length (updateScenario i p prev) = length prev"
  by (simp add: updateScenario_def)

lemma length_score_criterion:
  "length (score_criterion sel i a m prev c) = length prev"
  by (simp add: score_criterion_def setCriterionScore_def length_updateScenario
      split: option.splits jsval.splits)

lemma length_score_criteria:
  "length (foldl (score_criterion sel i a m) prev cs) = length prev"
  by (induction cs arbitrary: prev) (simp_all add: length_score_criterion)

lemma length_score_area: "length (score_area sel i d prev a) = length prev"
  by (simp add: score_area_def Let_def length_score_criteria)

lemma length_score_areas: "length (foldl (score_area sel i d) prev as) = length prev"
  by (induction as arbitrary: prev) (simp_all add: length_score_area)

lemma length_aiScoreAll: "length (fst (aiScoreAll sel i outcome prev)) = length prev"
  by (simp add: aiScoreAll_def length_score_areas split: fetch_outcome.splits sum.splits)

lemma aiScoreAll_nonempty: "prev \<noteq> [] \<Longrightarrow> fst (aiScoreAll sel i outcome prev) \<noteq> []"
  using length_aiScoreAll [of sel i outcome prev] by (metis length_0_conv)

lemma removeScenario_nonempty:
  "st_scenarios st \<noteq> [] \<Longrightarrow> st_scenarios (removeScenario i st) \<noteq> []"
  by (simp add: removeScenario_def Let_def)

lemma step_nonempty: "st_scenarios st \<noteq> [] \<Longrightarrow> st_scenarios (step st act) \<noteq> []"
  by (cases act)
    (auto simp: step_def addScenario_def Let_def removeScenario_nonempty updateScenario_def
       setCriterionScore_def aiScoreAll_nonempty split: option.splits)

lemma run_nonempty: "st_scenarios st \<noteq> [] \<Longrightarrow> st_scenarios (run st acts) \<noteq> []"
  unfolding run_def by (induction acts arbitrary: st) (simp_all add: step_nonempty)

text \<open>
  C9: the initial state has one scenario, removing a scenario changes nothing when no
  scenario would be left, and after any sequence of events (adding, removing, selecting,
  editing, scoring) the scenario list is not empty.
\<close>

theorem scenarios_never_empty:
  "length (st_scenarios (initial u)) = 1
     \<and> (filter (\<lambda>s. s_id s \<noteq> i) (st_scenarios st) = [] \<longrightarrow> removeScenario i st = st)
     \<and> st_scenarios (run (initial u) acts) \<noteq> []"
proof -
  have "st_scenarios (initial u) \<noteq> []" by (simp add: initial_def)
  then show ?thesis
    using run_nonempty by (simp add: initial_def removeScenario_def)
qed

theorem scenarios_never_empty_witness:
  "filter (\<lambda>s. s_id s \<noteq> str ''u'') (st_scenarios (initial (str ''u''))) = []
     \<and> removeScenario (str ''u'') (initial (str ''u'')) = initial (str ''u'')
     \<and> st_scenarios (run (initial (str ''u'')) [RemoveScenario (str ''u'')]) \<noteq> []"
  using scenarios_never_empty [of "str ''u''" "str ''u''" "initial (str ''u'')" "[RemoveScenario (str ''u'')]"]
  by (simp add: initial_def blank_scenario_def)

section \<open>Properties of the scoring through the endpoint\<close>

text \<open>
  C7: for every response whose status is outside 200..299 the scenario list is returned
  as it was, and exactly one alert is shown, which carries the status, the status text
  and, when there is one, the body.
\<close>

theorem aiScoreAll_rejected:
  "status res < 200 \<or> 299 < status res \<Longrightarrow>
     aiScoreAll selected selectedScenarioId (Responded res) prev = (prev, [rejected_message res])
     \<and> rejected_message res =
         str ''KI-Bewertung nicht erreichbar.\<newline>'' @
         str ''Bitte Backend-Endpoint POST /api/ai-score bereitstellen.\<newline>\<newline>'' @
         str ''HTTP '' @ show_nat (status res) @ str '' '' @ statusText res @
         (if body_text res = [] then [] else str ''\<newline>\<newline>'' @ body_text res)"
  by (auto simp: aiScoreAll_def ok_def rejected_message_def)

lemma show_nat_503: "show_nat 503 = str ''503''"
  by (simp add: str_def show_nat.simps)

theorem aiScoreAll_rejected_witness:
  "299 < status (respond 503 ''Service Unavailable'' ''down'' (Inl []))
     \<and> aiScoreAll three_scores (str ''a'')
          (Responded (respond 503 ''Service Unavailable'' ''down'' (Inl []))) [three_scores]
        = ([three_scores], [rejected_message (respond 503 ''Service Unavailable'' ''down'' (Inl []))])"
  using aiScoreAll_rejected [of "respond 503 ''Service Unavailable'' ''down'' (Inl [])"
      three_scores "str ''a''" "[three_scores]"]
  by (simp add: respond_def)

text \<open>
  A successful response with one accepted value: the value is snapped and written, the
  other criterion keeps its score.
\<close>

lemma aiScoreAll_one_score: "map (\<lambda>s. map c_score (s_criteria s AreaS))
     (fst (aiScoreAll two_unscored (str ''a'')
        (Responded (respond 200 ''OK'' '''' (Inr (scores_for [(''c2'', JNum (Num 8))]))))
        [two_unscored]))
   = [[None, Some (Num 8)]]"
  by (simp add: aiScoreAll_def ok_def respond_def scores_for_def AREAS_def score_area_def
      score_criterion_def setCriterionScore_def updateScenario_def spread_def no_partial_def
      two_unscored_def scen_def crit_def str_def nearestFib_def FIB_def nearest_step_Num round_num_dyadic)

text \<open>
  C2 at a response with two accepted values, 5 for \<open>c1\<close> and 8 for \<open>c2\<close>, on a scenario
  with the two criteria unscored: every call of \<open>setCriterionScore\<close> builds the criteria
  from the \<open>selected\<close> of the render, so the second update replaces what the first one
  wrote, and \<open>c1\<close> is left unscored.
\<close>

theorem aiScoreAll_keeps_last_score_only:
  "map (\<lambda>s. map c_score (s_criteria s AreaS))
     (fst (aiScoreAll two_unscored (str ''a'')
        (Responded (respond 200 ''OK'' ''''
           (Inr (scores_for [(''c1'', JNum (Num 5)), (''c2'', JNum (Num 8))]))))
        [two_unscored]))
   = [[None, Some (Num 8)]]"
  by (simp add: aiScoreAll_def ok_def respond_def scores_for_def AREAS_def score_area_def
      score_criterion_def setCriterionScore_def updateScenario_def spread_def no_partial_def
      two_unscored_def scen_def crit_def str_def nearestFib_def FIB_def nearest_step_Num round_num_dyadic)

section \<open>Properties of the scoring service\<close>

lemma service_error_eq: "e = e'" for e e' :: service_error
  by (cases e, cases e') simp

lemma scoreOne_member: "scoreOne openai t = Inr v \<Longrightarrow> v \<in> set FIB"
  by (auto simp: scoreOne_def Let_def snapFib_member split: completion.splits)

lemma scoreOne_Inl: "scoreOne openai t = Inl e \<longleftrightarrow> openai t = Rejected"
  by (cases e) (auto simp: scoreOne_def Let_def split: completion.splits)

lemma promise_all_Inl:
  "promise_all ps = Inl e \<longleftrightarrow> (\<exists>p \<in> set ps. \<exists>e'. p = Inl e')"
  for e :: service_error
proof (induction ps)
  case Nil
  show ?case by simp
next
  case (Cons p ps)
  show ?case
  proof (cases p)
    case (Inl e')
    then show ?thesis by (cases e, cases e') auto
  next
    case (Inr v)
    then show ?thesis using Cons.IH by (auto split: sum.splits)
  qed
qed

lemma promise_all_Inr:
  "promise_all ps = Inr vs \<Longrightarrow> ps = map Inr vs"
proof (induction ps arbitrary: vs)
  case Nil
  then show ?case by simp
next
  case (Cons p ps)
  then show ?case by (cases p) (auto split: sum.splits)
qed

lemma score_list_Inl:
  "score_list openai list = Inl e \<longleftrightarrow> (\<exists>c \<in> set list. openai (i_text c) = Rejected)"
proof -
  have "(\<exists>e'. (case scoreOne openai (i_text c) of Inl e \<Rightarrow> Inl e | Inr v \<Rightarrow> Inr (i_id c, v)) = Inl e')
          \<longleftrightarrow> openai (i_text c) = Rejected" for c :: "CriterionIn"
    using scoreOne_Inl [of openai "i_text c"] by (auto split: sum.splits)
  then show ?thesis
    by (simp add: score_list_def promise_all_Inl)
qed

lemma score_list_Inr:
  assumes "score_list openai list = Inr rs"
  shows "map fst rs = map i_id list \<and> (\<forall>r \<in> set rs. snd r \<in> set FIB)"
proof -
  have m: "map (\<lambda>c. case scoreOne openai (i_text c) of Inl e \<Rightarrow> Inl e | Inr v \<Rightarrow> Inr (i_id c, v)) list
        = map Inr rs"
    using assms promise_all_Inr by (simp add: score_list_def)
  then show ?thesis
  proof (induction list arbitrary: rs)
    case Nil
    then show ?case by simp
  next
    case (Cons c cs)
    then obtain r rs' where rs: "rs = r # rs'" by (cases rs) auto
    with Cons.prems have h: "(case scoreOne openai (i_text c) of Inl e \<Rightarrow> Inl e | Inr v \<Rightarrow> Inr (i_id c, v)) = Inr r"
      and t: "map (\<lambda>c. case scoreOne openai (i_text c) of Inl e \<Rightarrow> Inl e | Inr v \<Rightarrow> Inr (i_id c, v)) cs = map Inr rs'"
      by auto
    from h have "fst r = i_id c \<and> snd r \<in> set FIB"
      by (auto split: sum.splits dest: scoreOne_member)
    then show ?case using Cons.IH [OF t] rs by simp
  qed
qed

lemma dom_collect:
  "dom (foldl set_entry m rs) = dom m \<union> (fst ` set rs - {str ''__proto__''})"
  by (induction rs arbitrary: m) (auto simp: set_entry_def)

lemma ran_collect:
  "foldl set_entry m rs k = Some v \<Longrightarrow> m k = Some v \<or> v \<in> snd ` set rs"
proof (induction rs arbitrary: m)
  case Nil
  then show ?case by simp
next
  case (Cons r rs)
  from Cons.prems have "foldl set_entry (set_entry m r) rs k = Some v"
    by (simp only: foldl_Cons)
  from Cons.IH [OF this] show ?case
    by (auto simp: set_entry_def split: if_splits)
qed

text \<open>What the loop over the areas returns, for any list of areas and any mapping so far.\<close>

lemma handler_areas_Inl:
  "handler_areas openai criteria as out = Inl e
     \<longleftrightarrow> (\<exists>a \<in> set as. \<exists>c \<in> set (criteria a). openai (i_text c) = Rejected)"
proof (induction as arbitrary: out)
  case Nil
  show ?case by simp
next
  case (Cons a as)
  show ?case
  proof (cases "score_list openai (criteria a)")
    case (Inl e')
    then show ?thesis
      using score_list_Inl [of openai "criteria a" e'] service_error_eq [of e' e] by auto
  next
    case (Inr rs)
    then have "\<not> (\<exists>c \<in> set (criteria a). openai (i_text c) = Rejected)"
      using score_list_Inl [of openai "criteria a" SubCallRejected] by simp
    then show ?thesis using Inr Cons.IH by simp
  qed
qed

lemma handler_areas_Inr:
  "handler_areas openai criteria as out = Inr out' \<Longrightarrow> distinct as \<Longrightarrow>
     (\<forall>a. dom (out' a) = (if a \<in> set as
            then dom (out a) \<union> (i_id ` set (criteria a) - {str ''__proto__''}) else dom (out a)))
     \<and> (\<forall>a k v. out' a k = Some v \<longrightarrow> out a k = Some v \<or> v \<in> set FIB)"
proof (induction as arbitrary: out)
  case Nil
  then show ?case by simp
next
  case (Cons a as)
  from Cons.prems(1) obtain rs where rs: "score_list openai (criteria a) = Inr rs"
    and rest: "handler_areas openai criteria as
        (out(a := foldl set_entry (out a) rs)) = Inr out'"
    by (auto split: sum.splits)
  from score_list_Inr [OF rs] have ids: "fst ` set rs = i_id ` set (criteria a)"
    and vals: "\<forall>r \<in> set rs. snd r \<in> set FIB"
    by (metis image_set, blast)
  from Cons.prems(2) have d: "distinct as" "a \<notin> set as" by auto
  from Cons.IH [OF rest d(1)] have
    D: "\<forall>b. dom (out' b) = (if b \<in> set as
          then dom ((out(a := foldl set_entry (out a) rs)) b)
                 \<union> (i_id ` set (criteria b) - {str ''__proto__''})
          else dom ((out(a := foldl set_entry (out a) rs)) b))"
    and V: "\<forall>b k v. out' b k = Some v \<longrightarrow>
          (out(a := foldl set_entry (out a) rs)) b k = Some v \<or> v \<in> set FIB"
    by blast+
  have 1: "\<forall>b. dom (out' b) = (if b \<in> set (a # as)
        then dom (out b) \<union> (i_id ` set (criteria b) - {str ''__proto__''}) else dom (out b))"
    using D d(2) ids by (auto simp: dom_collect)
  have 2: "\<forall>b k v. out' b k = Some v \<longrightarrow> out b k = Some v \<or> v \<in> set FIB"
  proof (intro allI impI)
    fix b k v assume "out' b k = Some v"
    with V have "(out(a := foldl set_entry (out a) rs)) b k = Some v \<or> v \<in> set FIB"
      by blast
    then show "out b k = Some v \<or> v \<in> set FIB"
      using ran_collect [of "out a" rs k v] vals by (auto split: if_splits)
  qed
  show ?case using 1 2 by blast
qed

text \<open>
  C3 (as the code has it): on a valid POST request, if the completion of any criterion
  of any area rejects, the handler rejects as a whole and returns no mapping; if none
  rejects, it answers 200 with a mapping that has, per area, an entry for exactly the
  ids of the criteria other than \<open>__proto__\<close>, under which an object stores no number.
\<close>

theorem handler_all_or_nothing:
  "req_method req = str ''POST'' \<Longrightarrow> req_body req = Parsed criteria \<Longrightarrow>
     (if \<exists>a. \<exists>c \<in> set (criteria a). openai (i_text c) = Rejected
      then handler openai req = Inl SubCallRejected
      else \<exists>out. handler openai req = Inr (Response 200 (Scores out))
             \<and> (\<forall>a. dom (out a) = i_id ` set (criteria a) - {str ''__proto__''}))"
proof -
  assume m: "req_method req = str ''POST''" and b: "req_body req = Parsed criteria"
  have all: "set [AreaS, AreaW, AreaO, AreaT] = UNIV"
    using area.exhaust by auto
  show ?thesis
  proof (cases "handler_areas openai criteria [AreaS, AreaW, AreaO, AreaT] (\<lambda>a. Map.empty)")
    case (Inl e)
    then have "\<exists>a. \<exists>c \<in> set (criteria a). openai (i_text c) = Rejected"
      using handler_areas_Inl [of openai criteria "[AreaS, AreaW, AreaO, AreaT]" "\<lambda>a. Map.empty" e]
      by blast
    moreover have "handler openai req = Inl SubCallRejected"
      using Inl m b by (cases e) (simp add: handler_def)
    ultimately show ?thesis by simp
  next
    case (Inr out)
    have no: "\<not> (\<exists>a. \<exists>c \<in> set (criteria a). openai (i_text c) = Rejected)"
      using Inr handler_areas_Inl [of openai criteria "[AreaS, AreaW, AreaO, AreaT]" "\<lambda>a. Map.empty" SubCallRejected]
      unfolding all by auto
    have "\<forall>a. dom (out a) = i_id ` set (criteria a) - {str ''__proto__''}"
      using handler_areas_Inr [OF Inr] unfolding all by simp
    moreover have "handler openai req = Inr (Response 200 (Scores out))"
      using Inr m b by (simp add: handler_def)
    ultimately show ?thesis using no by simp
  qed
qed

theorem handler_all_or_nothing_witness:
  "req_method (post [crit_in ''c1'' ''a'', crit_in ''c2'' ''b'']) = str ''POST''
     \<and> req_body (post [crit_in ''c1'' ''a'', crit_in ''c2'' ''b''])
         = Parsed ((\<lambda>a. [])(AreaS := [crit_in ''c1'' ''a'', crit_in ''c2'' ''b'']))
     \<and> rejects_b (i_text (crit_in ''c2'' ''b'')) = Rejected
     \<and> handler rejects_b (post [crit_in ''c1'' ''a'', crit_in ''c2'' ''b'']) = Inl SubCallRejected"
proof -
  have m: "req_method (post [crit_in ''c1'' ''a'', crit_in ''c2'' ''b'']) = str ''POST''"
    by (simp add: post_def)
  have b: "req_body (post [crit_in ''c1'' ''a'', crit_in ''c2'' ''b''])
         = Parsed ((\<lambda>a. [])(AreaS := [crit_in ''c1'' ''a'', crit_in ''c2'' ''b'']))"
    by (simp add: post_def)
  have r: "rejects_b (i_text (crit_in ''c2'' ''b'')) = Rejected"
    by (simp add: rejects_b_def crit_in_def)
  have e: "\<exists>a. \<exists>c \<in> set (((\<lambda>a. [])(AreaS := [crit_in ''c1'' ''a'', crit_in ''c2'' ''b''])) a).
             rejects_b (i_text c) = Rejected"
    using r by (intro exI [of _ AreaS]) simp
  show ?thesis
    using m b r e handler_all_or_nothing [OF m b, of rejects_b] by simp
qed

text \<open>
  C3 as stated (a failing sub-call only omits its criterion) fails on a request with the
  strengths \<open>c1\<close> and \<open>c2\<close> where the completion for \<open>c2\<close> rejects and the one for
  \<open>c1\<close> does not: the handler rejects, and no entry for \<open>c1\<close> is returned.
\<close>

theorem handler_sub_failure_counterexample:
  "rejects_b (str ''a'') \<noteq> Rejected \<and> rejects_b (str ''b'') = Rejected
     \<and> handler rejects_b (post [crit_in ''c1'' ''a'', crit_in ''c2'' ''b'']) = Inl SubCallRejected"
  by (simp add: handler_def post_def crit_in_def rejects_b_def score_list_def scoreOne_def str_def)

text \<open>
  C8: a judgment whose score is missing or is not a number is snapped as the raw value 0,
  which gives 1; every value \<open>scoreOne\<close> returns is a member of the scale, and so is
  every value of the mapping the handler returns.
\<close>

theorem service_scores_in_scale:
  "(openai t = Payload p \<and> (\<forall>x. p \<noteq> Some (JNum x)) \<longrightarrow>
       scoreOne openai t = Inr (snapFib (Num 0)) \<and> snapFib (Num 0) = Num 1)
     \<and> (scoreOne openai t = Inr v \<longrightarrow> v \<in> set FIB)
     \<and> (handler openai req = Inr (Response code (Scores out)) \<and> out a k = Some v \<longrightarrow> v \<in> set FIB)"
proof -
  have 1: "openai t = Payload p \<and> (\<forall>x. p \<noteq> Some (JNum x)) \<longrightarrow>
       scoreOne openai t = Inr (snapFib (Num 0)) \<and> snapFib (Num 0) = Num 1"
    using snapFib_nonpos [of 0]
    by (auto simp: scoreOne_def Let_def split: option.splits jsval.splits)
  have 2: "scoreOne openai t = Inr v \<longrightarrow> v \<in> set FIB"
    using scoreOne_member by blast
  have 3: "handler openai req = Inr (Response code (Scores out)) \<and> out a k = Some v \<longrightarrow> v \<in> set FIB"
  proof (intro impI, elim conjE)
    assume h: "handler openai req = Inr (Response code (Scores out))" and o: "out a k = Some v"
    from h obtain criteria where
      "handler_areas openai criteria [AreaS, AreaW, AreaO, AreaT] (\<lambda>a. Map.empty) = Inr out"
      by (auto simp: handler_def split: if_splits body_result.splits sum.splits)
    from handler_areas_Inr [OF this] o show "v \<in> set FIB" by fastforce
  qed
  show ?thesis using 1 2 3 by blast
qed

theorem service_scores_in_scale_witness:
  "rejects_b (str ''a'') = Payload (Some (JNum (Num 5))) \<and> scoreOne rejects_b (str ''a'') = Inr (Num 5)
     \<and> Num 5 \<in> set FIB
     \<and> scoreOne (\<lambda>t. Payload (Some (JStr t))) (str ''a'') = Inr (Num 1)"
proof -
  have 1: "scoreOne rejects_b (str ''a'') = Inr (Num 5)"
    by (simp add: scoreOne_def rejects_b_def str_def snapFib_def FIB_def snap_step_Num)
  have 2: "\<forall>x. Some (JStr (str ''a'')) \<noteq> Some (JNum x)" by simp
  show ?thesis
    using 1 2 service_scores_in_scale [of rejects_b "str ''a''" _ "Num 5"]
      service_scores_in_scale [of "\<lambda>t. Payload (Some (JStr t))" "str ''a''" "Some (JStr (str ''a''))"]
    by (simp add: rejects_b_def str_def)
qed

text \<open>A request whose only criterion has the id \<open>__proto__\<close>: no entry is returned for it.\<close>

lemma handler_proto_example:
  "handler (\<lambda>t. Payload (Some (JNum (Num 5)))) (post [crit_in ''__proto__'' ''a''])
     = Inr (Response 200 (Scores (\<lambda>a. Map.empty)))"
  by (simp add: handler_def post_def crit_in_def score_list_def scoreOne_def set_entry_def
      fun_eq_iff)


end
